theory Spec2Isabelle
  imports Complex_Main
begin

section \<open>JavaScript numbers and arrays, as far as services.ts uses them\<close>

text \<open>
  Page indices, page sizes and row counts are JavaScript numbers holding integers; they are
  modelled as \<open>int\<close>, for values in the range where a double holds every integer
  exactly. A division or a remainder by zero leaves the integers, so the results of
  \<open>/\<close>, \<open>%\<close>, \<open>Math.floor\<close> and \<open>Math.ceil\<close> are values of
  \<open>jsnum\<close>, which adds NaN and the two infinities.
\<close>

datatype jsnum = Num int | NaN | PosInf | NegInf

text \<open>\<open>Math.floor(a / b)\<close> for integers \<open>a\<close> and \<open>b\<close>.\<close>

definition js_floor_div :: "int \<Rightarrow> int \<Rightarrow> jsnum" where
  "js_floor_div a b =
     (if b = 0 then (if a = 0 then NaN else if 0 < a then PosInf else NegInf)
      else Num (a div b))"

text \<open>\<open>Math.ceil(a / b)\<close> for integers \<open>a\<close> and \<open>b\<close>.\<close>

definition js_ceil_div :: "int \<Rightarrow> int \<Rightarrow> jsnum" where
  "js_ceil_div a b =
     (if b = 0 then (if a = 0 then NaN else if 0 < a then PosInf else NegInf)
      else Num (- ((- a) div b)))"

text \<open>\<open>a % b\<close>: the remainder takes the sign of the dividend.\<close>

definition js_rem :: "int \<Rightarrow> int \<Rightarrow> jsnum" where
  "js_rem a b = (if b = 0 then NaN else Num (sgn a * (\<bar>a\<bar> mod \<bar>b\<bar>)))"

text \<open>\<open>x || y\<close> on numbers: 0 and NaN are falsy.\<close>

definition js_or :: "jsnum \<Rightarrow> jsnum \<Rightarrow> jsnum" where
  "js_or x y = (case x of Num k \<Rightarrow> (if k = 0 then y else x) | NaN \<Rightarrow> y | _ \<Rightarrow> x)"

text \<open>\<open>x - k\<close> for a number \<open>x\<close> and an integer \<open>k\<close>.\<close>

definition js_minus :: "jsnum \<Rightarrow> int \<Rightarrow> jsnum" where
  "js_minus x k = (case x of Num a \<Rightarrow> Num (a - k) | _ \<Rightarrow> x)"

text \<open>
  \<open>Array.prototype.slice(start, end)\<close>: each bound is made an integer (NaN is 0), a
  negative bound counts from the end, and both are clamped to the array.
\<close>

definition relativeIndex :: "int \<Rightarrow> jsnum \<Rightarrow> int" where
  "relativeIndex len x =
     (case x of
        NaN \<Rightarrow> 0
      | NegInf \<Rightarrow> 0
      | PosInf \<Rightarrow> len
      | Num r \<Rightarrow> (if r < 0 then max (len + r) 0 else min r len))"

definition js_slice :: "jsnum \<Rightarrow> jsnum \<Rightarrow> 'a list \<Rightarrow> 'a list" where
  "js_slice start final xs =
     (let len = int (length xs);
          k = relativeIndex len start;
          f = relativeIndex len final
      in take (nat (f - k)) (drop (nat k) xs))"

section \<open>useEmployees: which server page, and which rows of it\<close>

text \<open>
  \<open>SERVER_PAGE_SIZE\<close> is read from the environment when the module loads; it is the
  parameter \<open>sps\<close> of every definition that uses it.
\<close>

record 'e GetEmployeesResponse =
  employees :: "'e list"
  totalCount :: int

definition pageOnServer :: "int \<Rightarrow> int \<Rightarrow> int \<Rightarrow> jsnum" where
  "pageOnServer sps pageOnClient pageSizeOnClient =
     js_floor_div (pageOnClient * pageSizeOnClient) sps"

definition sliceStart :: "int \<Rightarrow> int \<Rightarrow> int \<Rightarrow> jsnum" where
  "sliceStart sps pageOnClient pageSizeOnClient =
     js_rem (pageOnClient * pageSizeOnClient) sps"

definition sliceEnd :: "int \<Rightarrow> int \<Rightarrow> int \<Rightarrow> jsnum" where
  "sliceEnd sps pageOnClient pageSizeOnClient =
     js_or (js_rem ((pageOnClient + 1) * pageSizeOnClient) sps) (Num sps)"

text \<open>\<open>query.data?.employees?.slice(start, end)\<close>; \<open>None\<close> is \<open>undefined\<close>.\<close>

definition employeesSlice ::
  "int \<Rightarrow> int \<Rightarrow> int \<Rightarrow> 'e GetEmployeesResponse option \<Rightarrow> 'e list option" where
  "employeesSlice sps pageOnClient pageSizeOnClient qdata =
     map_option
       (\<lambda>d. js_slice (sliceStart sps pageOnClient pageSizeOnClient)
                      (sliceEnd sps pageOnClient pageSizeOnClient) (employees d))
       qdata"

text \<open>An array, even an empty one, is truthy: the data is replaced whenever it is there.\<close>

definition dataPaginated ::
  "int \<Rightarrow> int \<Rightarrow> int \<Rightarrow> 'e GetEmployeesResponse option \<Rightarrow> 'e GetEmployeesResponse option" where
  "dataPaginated sps pageOnClient pageSizeOnClient qdata =
     (case employeesSlice sps pageOnClient pageSizeOnClient qdata of
        Some s \<Rightarrow> map_option (\<lambda>d. d\<lparr>employees := s\<rparr>) qdata
      | None \<Rightarrow> qdata)"

text \<open>
  Modelled from the spec: the REST backend, which is not part of the sources. For a fixed
  sort and filter configuration the server pages, in index order, make up the whole list
  \<open>all\<close>: page \<open>k\<close> holds the rows from \<open>k * sps\<close> on, at most \<open>sps\<close> of them,
  and the total count. A page index that is not a natural number is answered by an error.
\<close>

definition serverPage :: "int \<Rightarrow> 'e list \<Rightarrow> jsnum \<Rightarrow> 'e GetEmployeesResponse option" where
  "serverPage sps all p =
     (case p of
        Num k \<Rightarrow>
          (if 0 \<le> k
           then Some \<lparr>employees = take (nat sps) (drop (nat (k * sps)) all),
                      totalCount = int (length all)\<rparr>
           else None)
      | _ \<Rightarrow> None)"

text \<open>
  The rows shown for a client page when the query holds the server page that
  \<open>useEmployees\<close> asks for (no rows while there is no data).
\<close>

definition clientPage :: "int \<Rightarrow> 'e list \<Rightarrow> int \<Rightarrow> int \<Rightarrow> 'e list" where
  "clientPage sps all pageOnClient pageSizeOnClient =
     (case dataPaginated sps pageOnClient pageSizeOnClient
             (serverPage sps all (pageOnServer sps pageOnClient pageSizeOnClient)) of
        None \<Rightarrow> []
      | Some d \<Rightarrow> employees d)"

text \<open>\<open>lastPage = Math.ceil(totalEmployees / pageSize) - 1\<close>, as \<open>usePrefetchEmployees\<close> computes it.\<close>

definition lastPage :: "int \<Rightarrow> int \<Rightarrow> jsnum" where
  "lastPage totalEmployees pageSize = js_minus (js_ceil_div totalEmployees pageSize) 1"

text \<open>The client pages 0 to the last one, one after the other.\<close>

definition allClientPages :: "int \<Rightarrow> 'e list \<Rightarrow> int \<Rightarrow> 'e list" where
  "allClientPages sps all pageSizeOnClient =
     (case lastPage (int (length all)) pageSizeOnClient of
        Num l \<Rightarrow> concat (map (\<lambda>i. clientPage sps all i pageSizeOnClient) [0..l])
      | _ \<Rightarrow> [])"

section \<open>usePrefetchEmployees: the pages fetched ahead\<close>

text \<open>\<open>for (let i = 0; i <= 4; i += 1) if (i !== currentPage && i <= lastPage) push(i)\<close>\<close>

function forUp :: "int \<Rightarrow> int \<Rightarrow> int \<Rightarrow> int list \<Rightarrow> int list" where
  "forUp currentPage lastPg i pagesAcc =
     (if i \<le> 4
      then forUp currentPage lastPg (i + 1)
             (if i \<noteq> currentPage \<and> i \<le> lastPg then pagesAcc @ [i] else pagesAcc)
      else pagesAcc)"
  by pat_completeness auto
termination
  by (relation "measure (\<lambda>(c, l, i, acc). nat (5 - i))") auto

declare forUp.simps [simp del]

text \<open>\<open>for (let i = lastPage; i >= lastPage - 4; i -= 1) if (i !== currentPage && i >= 0) push(i)\<close>\<close>

function forDown :: "int \<Rightarrow> int \<Rightarrow> int \<Rightarrow> int list \<Rightarrow> int list" where
  "forDown currentPage lastPg i pagesAcc =
     (if i \<ge> lastPg - 4
      then forDown currentPage lastPg (i - 1)
             (if i \<noteq> currentPage \<and> i \<ge> 0 then pagesAcc @ [i] else pagesAcc)
      else pagesAcc)"
  by pat_completeness auto
termination
  by (relation "measure (\<lambda>(c, l, i, acc). nat (i - l + 5))") auto

declare forDown.simps [simp del]

text \<open>The list \<open>pagesToPrefetch\<close> for a current page and a last page that is an integer.\<close>

definition pagesToPrefetch :: "int \<Rightarrow> int \<Rightarrow> int list" where
  "pagesToPrefetch currentPage lastPg =
     (if currentPage \<le> 3 then
        (let pagesAcc = forUp currentPage lastPg 0 []
         in if lastPg > 4 then pagesAcc @ [lastPg] else pagesAcc)
      else if currentPage \<ge> lastPg - 3 then
        (let pagesAcc = forDown currentPage lastPg lastPg []
         in if lastPg - 4 > 0 then pagesAcc @ [0] else pagesAcc)
      else [currentPage - 1, currentPage + 1, 0, lastPg])"

text \<open>\<open>Math.floor((page * pageSize) / SERVER_PAGE_SIZE)\<close> for a page fetched ahead.\<close>

definition pageOnServerToFetch :: "int \<Rightarrow> int \<Rightarrow> int \<Rightarrow> jsnum" where
  "pageOnServerToFetch sps page pageSize = js_floor_div (page * pageSize) sps"

section \<open>fetchEmployees: the request path\<close>

text \<open>\<open>Array.prototype.join(sep)\<close> on strings.\<close>

fun js_join :: "string \<Rightarrow> string list \<Rightarrow> string" where
  "js_join sep [] = []"
| "js_join sep [x] = x"
| "js_join sep (x # y # ys) = x @ sep @ js_join sep (y # ys)"

text \<open>
  \<open>String.prototype.split(sep)\<close> for a separator of one character: the pieces between
  the separators, one more than there are separators.
\<close>

fun js_split :: "char \<Rightarrow> string \<Rightarrow> string list" where
  "js_split sep [] = [[]]"
| "js_split sep (c # cs) =
     (if c = sep then [] # js_split sep cs
      else (case js_split sep cs of
              [] \<Rightarrow> [[c]]
            | piece # pieces \<Rightarrow> (c # piece) # pieces))"

text \<open>
  The options of a query. The grid's sort direction is \<open>'asc'\<close>, \<open>'desc'\<close>,
  \<open>null\<close> or \<open>undefined\<close>. Of the grid's filter model only
  \<open>quickFilterValues\<close> is read here; \<open>None\<close> is \<open>undefined\<close>.
\<close>

datatype GridSortDirection = Asc | Desc | Null | Undefined

record GridSortItem =
  field_of :: string
  sort_of :: GridSortDirection

record GridFilterModel =
  quickFilterValues :: "string list option"

record QueryOptionsInterface =
  sortModel :: "GridSortItem list"
  filterModel :: GridFilterModel

text \<open>\<open>queryOptions.sortModel[0]?.field\<close> and \<open>queryOptions.sortModel[0]?.sort\<close>\<close>

definition sortingFieldOf :: "QueryOptionsInterface \<Rightarrow> string option" where
  "sortingFieldOf queryOptions =
     (case sortModel queryOptions of [] \<Rightarrow> None | item # _ \<Rightarrow> Some (field_of item))"

definition sortingOrderOf :: "QueryOptionsInterface \<Rightarrow> GridSortDirection" where
  "sortingOrderOf queryOptions =
     (case sortModel queryOptions of [] \<Rightarrow> Undefined | item # _ \<Rightarrow> sort_of item)"

text \<open>\<open>queryOptions.filterModel.quickFilterValues?.join('_')?.split('/')?.join('-')\<close>\<close>

definition filtersOf :: "QueryOptionsInterface \<Rightarrow> string option" where
  "filtersOf queryOptions =
     map_option (\<lambda>values. js_join ''-'' (js_split (CHR ''/'') (js_join ''_'' values)))
       (quickFilterValues (filterModel queryOptions))"

text \<open>A value inside a template literal.\<close>

definition digitChar :: "nat \<Rightarrow> char" where
  "digitChar d = ''0123456789'' ! d"

fun showNat :: "nat \<Rightarrow> string" where
  "showNat n = (if n < 10 then [digitChar n] else showNat (n div 10) @ [digitChar (n mod 10)])"

declare showNat.simps [simp del]

definition showNum :: "jsnum \<Rightarrow> string" where
  "showNum x =
     (case x of
        Num k \<Rightarrow> (if k < 0 then ''-'' @ showNat (nat (- k)) else showNat (nat k))
      | NaN \<Rightarrow> ''NaN''
      | PosInf \<Rightarrow> ''Infinity''
      | NegInf \<Rightarrow> ''-Infinity'')"

definition showField :: "string option \<Rightarrow> string" where
  "showField f = (case f of None \<Rightarrow> ''undefined'' | Some name \<Rightarrow> name)"

definition showSort :: "GridSortDirection \<Rightarrow> string" where
  "showSort d =
     (case d of Asc \<Rightarrow> ''asc'' | Desc \<Rightarrow> ''desc'' | Null \<Rightarrow> ''null'' | Undefined \<Rightarrow> ''undefined'')"

text \<open>\<open>filters || 'noFilter'\<close>: \<open>undefined\<close> and the empty string are falsy.\<close>

definition filtersOrNoFilter :: "string option \<Rightarrow> string" where
  "filtersOrNoFilter filters =
     (case filters of None \<Rightarrow> ''noFilter'' | Some f \<Rightarrow> (if f = [] then ''noFilter'' else f))"

text \<open>
  The path that \<open>fetchEmployees\<close> requests. \<open>ENDPOINTS.employees\<close> is the parameter
  \<open>endpoint\<close>.
\<close>

definition employeesPath ::
  "string \<Rightarrow> jsnum \<Rightarrow> string option \<Rightarrow> GridSortDirection \<Rightarrow> string option \<Rightarrow> string" where
  "employeesPath endpoint page sortingField sortingOrder filters =
     endpoint @ ''/page/'' @ showNum page @ ''/sort/'' @ showField sortingField @ ''/''
       @ showSort sortingOrder @ ''/filters/'' @ filtersOrNoFilter filters"

text \<open>The spec's words for the filter string: every \<open>/\<close> becomes \<open>-\<close>.\<close>

definition escapeSlash :: "string \<Rightarrow> string" where
  "escapeSlash s = map (\<lambda>c. if c = CHR ''/'' then CHR ''-'' else c) s"

section \<open>The REST client, the query cache and the hooks that use them\<close>

text \<open>
  Modelled from the spec: the employee record (the types module is not part of the
  sources). Dates are numbers of milliseconds. \<open>Omit<Employee, 'id'>\<close> is the record
  without its last field.
\<close>

record EmployeeData =
  firstName :: string
  lastName :: string
  dateOfBirth :: int
  startDate :: int
  street :: string
  city :: string
  zipcode :: int
  stateAbbreviation :: string
  department :: string

record Employee = EmployeeData +
  employeeId :: string

text \<open>A call of the REST client, as the network sees it.\<close>

datatype request =
  Get string
| Post string EmployeeData
| Put string Employee
| Delete string

text \<open>
  The REST client (\<open>./lib/axios\<close>) is a parameter: what each of its four methods
  answers, an error of type \<open>'x\<close> or a response. \<open>client_get\<close> gives the
  \<open>data\<close> of the response, which is all \<open>fetchEmployees\<close> returns.
\<close>

record ('x, 'r) restClient =
  client_get :: "string \<Rightarrow> 'x + Employee GetEmployeesResponse"
  client_post :: "string \<Rightarrow> EmployeeData \<Rightarrow> 'x + 'r"
  client_put :: "string \<Rightarrow> Employee \<Rightarrow> 'x + 'r"
  client_delete :: "string \<Rightarrow> 'x + 'r"

text \<open>
  The key of a query is \<open>['employees', pageOnServer, queryOptions]\<close>; every key of this
  module starts with \<open>'employees'\<close>.
\<close>

type_synonym queryKey = "jsnum \<times> QueryOptionsInterface"

record cacheEntry =
  entryData :: "Employee GetEmployeesResponse"
  dataUpdatedAt :: nat
  isInvalidated :: bool

text \<open>
  The state the hooks act on: the query cache, the calls made over the network so far, and
  the state \<open>ui\<close> that the caller's callbacks change.
\<close>

record 'u world =
  cache :: "queryKey \<Rightarrow> cacheEntry option"
  network :: "request list"
  ui :: 'u

definition fetchEmployees ::
  "string \<Rightarrow> ('x, 'r) restClient \<Rightarrow> jsnum \<Rightarrow> string option \<Rightarrow> GridSortDirection \<Rightarrow>
     string option \<Rightarrow> 'u world \<Rightarrow> ('x + Employee GetEmployeesResponse) \<times> 'u world" where
  "fetchEmployees endpoint client page sortingField sortingOrder filters w =
     (let path = employeesPath endpoint page sortingField sortingOrder filters
      in (client_get client path, w\<lparr>network := network w @ [Get path]\<rparr>))"

text \<open>
  Modelled from the spec: the cache of the query library, which is not part of the
  sources. It is a cache with expiry, keyed by the whole request tuple: a result stays valid
  for \<open>staleTime\<close> milliseconds after it was fetched, unless it was invalidated; a request
  for a valid entry is answered from the cache, any other runs the query function and
  stores what it returns with the time \<open>now\<close>. A failed fetch leaves the cache as it was.
\<close>

definition isStale :: "nat \<Rightarrow> nat \<Rightarrow> cacheEntry \<Rightarrow> bool" where
  "isStale staleTime now e = (isInvalidated e \<or> dataUpdatedAt e + staleTime \<le> now)"

definition runQuery ::
  "nat \<Rightarrow> queryKey \<Rightarrow> ('u world \<Rightarrow> ('x + Employee GetEmployeesResponse) \<times> 'u world) \<Rightarrow>
     'u world \<Rightarrow> Employee GetEmployeesResponse option \<times> 'u world" where
  "runQuery now key queryFn w =
     (case queryFn w of
        (Inr d, w1) \<Rightarrow>
          (Some d,
           w1\<lparr>cache := (cache w1)(key \<mapsto>
                 \<lparr>entryData = d, dataUpdatedAt = now, isInvalidated = False\<rparr>)\<rparr>)
      | (Inl err, w1) \<Rightarrow> (map_option entryData (cache w1 key), w1))"

definition fetchQuery ::
  "nat \<Rightarrow> nat \<Rightarrow> queryKey \<Rightarrow> ('u world \<Rightarrow> ('x + Employee GetEmployeesResponse) \<times> 'u world) \<Rightarrow>
     'u world \<Rightarrow> Employee GetEmployeesResponse option \<times> 'u world" where
  "fetchQuery staleTime now key queryFn w =
     (case cache w key of
        None \<Rightarrow> runQuery now key queryFn w
      | Some e \<Rightarrow>
          (if isStale staleTime now e then runQuery now key queryFn w
           else (Some (entryData e), w)))"

text \<open>
  Modelled from the spec: \<open>invalidateQueries(['employees'])\<close> of the query library marks
  every cached employee list, so that the next request for it fetches again.
\<close>

definition invalidateQueries :: "'u world \<Rightarrow> 'u world" where
  "invalidateQueries w =
     w\<lparr>cache := (\<lambda>key. map_option (\<lambda>e. e\<lparr>isInvalidated := True\<rparr>) (cache w key))\<rparr>"

text \<open>
  \<open>useEmployees\<close> at the time \<open>now\<close>: the query for the server page, then the slice of
  its data. A query that is not enabled fetches nothing and shows what the cache holds.
  The result is the one of the settled query; the previous page's data, which
  \<open>keepPreviousData\<close> shows while a fetch is under way, is not modelled.
\<close>

definition useEmployees ::
  "int \<Rightarrow> string \<Rightarrow> ('x, 'r) restClient \<Rightarrow> nat \<Rightarrow> int \<Rightarrow> int \<Rightarrow> bool \<Rightarrow>
     QueryOptionsInterface \<Rightarrow> 'u world \<Rightarrow> Employee GetEmployeesResponse option \<times> 'u world" where
  "useEmployees sps endpoint client now pageOnClient pageSizeOnClient enabled queryOptions w =
     (let page = pageOnServer sps pageOnClient pageSizeOnClient;
          key = (page, queryOptions);
          (qdata, w1) =
            (if enabled
             then fetchQuery 5000 now key
                    (fetchEmployees endpoint client page (sortingFieldOf queryOptions)
                       (sortingOrderOf queryOptions) (filtersOf queryOptions)) w
             else (map_option entryData (cache w key), w))
      in (dataPaginated sps pageOnClient pageSizeOnClient qdata, w1))"

text \<open>The body of \<open>pagesToPrefetch.forEach\<close>: one \<open>prefetchQuery\<close>, its result dropped.\<close>

definition prefetchPage ::
  "int \<Rightarrow> string \<Rightarrow> ('x, 'r) restClient \<Rightarrow> nat \<Rightarrow> int \<Rightarrow> QueryOptionsInterface \<Rightarrow>
     int \<Rightarrow> 'u world \<Rightarrow> 'u world" where
  "prefetchPage sps endpoint client now pageSize queryOptions page w =
     (let toFetch = pageOnServerToFetch sps page pageSize
      in snd (fetchQuery 5000 now (toFetch, queryOptions)
                (fetchEmployees endpoint client toFetch (sortingFieldOf queryOptions)
                   (sortingOrderOf queryOptions) (filtersOf queryOptions)) w))"

text \<open>
  \<open>usePrefetchEmployees\<close>. A page size of 0 makes \<open>lastPage\<close> NaN or infinite, which
  is no page index; that case is left out of the model, and the result is \<open>None\<close> there.
\<close>

definition usePrefetchEmployees ::
  "int \<Rightarrow> string \<Rightarrow> ('x, 'r) restClient \<Rightarrow> nat \<Rightarrow> int \<Rightarrow> int \<Rightarrow> int \<Rightarrow>
     QueryOptionsInterface \<Rightarrow> 'u world \<Rightarrow> 'u world option" where
  "usePrefetchEmployees sps endpoint client now currentPage pageSize totalEmployees queryOptions w =
     (case lastPage totalEmployees pageSize of
        Num l \<Rightarrow>
          Some (fold (prefetchPage sps endpoint client now pageSize queryOptions)
                  (pagesToPrefetch currentPage l) w)
      | _ \<Rightarrow> None)"

text \<open>
  What a hook hands to \<open>useMutation\<close>: the function that makes the REST call, and what is
  done with its result or its error.
\<close>

record ('v, 'x, 'r, 'u) mutationOptions =
  mutationFn :: "'v \<Rightarrow> 'u world \<Rightarrow> ('x + 'r) \<times> 'u world"
  onSuccess :: "'r \<Rightarrow> 'v \<Rightarrow> 'u world \<Rightarrow> 'u world"
  onError :: "'x \<Rightarrow> 'u world \<Rightarrow> 'u world"

text \<open>\<open>if (callback) callback(arg)\<close> for a callback the caller may have left out.\<close>

definition callIfGiven :: "('a \<Rightarrow> 'u \<Rightarrow> 'u) option \<Rightarrow> 'a \<Rightarrow> 'u world \<Rightarrow> 'u world" where
  "callIfGiven callback arg w =
     (case callback of None \<Rightarrow> w | Some f \<Rightarrow> w\<lparr>ui := f arg (ui w)\<rparr>)"

definition useCreateEmployee ::
  "('x, 'r) restClient \<Rightarrow> ('r \<Rightarrow> 'u \<Rightarrow> 'u) option \<Rightarrow> ('x \<Rightarrow> 'u \<Rightarrow> 'u) option \<Rightarrow>
     (EmployeeData, 'x, 'r, 'u) mutationOptions" where
  "useCreateEmployee client onSuccessCb onErrorCb =
     \<lparr>mutationFn = (\<lambda>employee w.
        (client_post client ''/employees'' employee,
         w\<lparr>network := network w @ [Post ''/employees'' employee]\<rparr>)),
      onSuccess = (\<lambda>data employee w. invalidateQueries (callIfGiven onSuccessCb data w)),
      onError = (\<lambda>err w. callIfGiven onErrorCb err w)\<rparr>"

definition useDeleteEmployee ::
  "('x, 'r) restClient \<Rightarrow> (string \<Rightarrow> 'u \<Rightarrow> 'u) option \<Rightarrow> ('x \<Rightarrow> 'u \<Rightarrow> 'u) option \<Rightarrow>
     (string, 'x, 'r, 'u) mutationOptions" where
  "useDeleteEmployee client onSuccessCb onErrorCb =
     \<lparr>mutationFn = (\<lambda>ident w.
        (client_delete client (''/employees/'' @ ident),
         w\<lparr>network := network w @ [Delete (''/employees/'' @ ident)]\<rparr>)),
      onSuccess = (\<lambda>data ident w. invalidateQueries (callIfGiven onSuccessCb ident w)),
      onError = (\<lambda>err w. callIfGiven onErrorCb err w)\<rparr>"

definition useUpdateEmployee ::
  "('x, 'r) restClient \<Rightarrow> (Employee \<Rightarrow> 'u \<Rightarrow> 'u) option \<Rightarrow> ('x \<Rightarrow> 'u \<Rightarrow> 'u) option \<Rightarrow>
     (Employee, 'x, 'r, 'u) mutationOptions" where
  "useUpdateEmployee client onSuccessCb onErrorCb =
     \<lparr>mutationFn = (\<lambda>employee w.
        (client_put client (''/employees/'' @ employeeId employee) employee,
         w\<lparr>network := network w @ [Put (''/employees/'' @ employeeId employee) employee]\<rparr>)),
      onSuccess = (\<lambda>data employee w. invalidateQueries (callIfGiven onSuccessCb employee w)),
      onError = (\<lambda>err w. callIfGiven onErrorCb err w)\<rparr>"

text \<open>
  Modelled from the spec: \<open>mutate\<close> of the query library, which is not part of the
  sources. One invocation runs the mutation function once, without retry, and then the
  success handler with the result or the error handler with the error.
\<close>

definition mutate :: "('v, 'x, 'r, 'u) mutationOptions \<Rightarrow> 'v \<Rightarrow> 'u world \<Rightarrow> 'u world" where
  "mutate m v w =
     (case mutationFn m v w of
        (Inr data, w1) \<Rightarrow> onSuccess m data v w1
      | (Inl err, w1) \<Rightarrow> onError m err w1)"

text \<open>
  The spec's words for a mutation: one REST call, \<open>req\<close>, whatever its answer; on success
  the cached employee lists are invalidated and the success callback, if given, is run; on
  failure the cache is left as it was and the error callback, if given, is run with the
  error.
\<close>

definition afterMutation ::
  "request \<Rightarrow> ('x + 'r) \<Rightarrow> ('a \<Rightarrow> 'u \<Rightarrow> 'u) option \<Rightarrow> ('r \<Rightarrow> 'a) \<Rightarrow> ('x \<Rightarrow> 'u \<Rightarrow> 'u) option \<Rightarrow>
     'u world \<Rightarrow> 'u world" where
  "afterMutation req answer onSuccessCb successArg onErrorCb w =
     (case answer of
        Inr data \<Rightarrow>
          \<lparr>cache = (\<lambda>key. map_option (\<lambda>e. e\<lparr>isInvalidated := True\<rparr>) (cache w key)),
           network = network w @ [req],
           ui = (case onSuccessCb of None \<Rightarrow> ui w | Some f \<Rightarrow> f (successArg data) (ui w))\<rparr>
      | Inl err \<Rightarrow>
          \<lparr>cache = cache w,
           network = network w @ [req],
           ui = (case onErrorCb of None \<Rightarrow> ui w | Some f \<Rightarrow> f err (ui w))\<rparr>)"

section \<open>Sample values\<close>

text \<open>A state with nothing cached and no call made, and a client with fixed answers.\<close>

definition freshWorld :: "'u \<Rightarrow> 'u world" where
  "freshWorld u = \<lparr>cache = (\<lambda>key. None), network = [], ui = u\<rparr>"

definition answering ::
  "('x + Employee GetEmployeesResponse) \<Rightarrow> ('x + 'r) \<Rightarrow> ('x, 'r) restClient" where
  "answering g m =
     \<lparr>client_get = (\<lambda>path. g), client_post = (\<lambda>path body. m),
      client_put = (\<lambda>path body. m), client_delete = (\<lambda>path. m)\<rparr>"

definition sampleOptions :: QueryOptionsInterface where
  "sampleOptions =
     \<lparr>sortModel = [\<lparr>field_of = ''lastName'', sort_of = Asc\<rparr>],
      filterModel = \<lparr>quickFilterValues = Some [''a/b'', ''c'']\<rparr>\<rparr>"

definition sampleEmployee :: Employee where
  "sampleEmployee =
     \<lparr>firstName = ''Ada'', lastName = ''Byron'', dateOfBirth = 0, startDate = 0,
      street = ''1 Main St'', city = ''Paris'', zipcode = 75001, stateAbbreviation = ''AL'',
      department = ''Sales'', employeeId = ''7''\<rparr>"

definition samplePage :: "Employee GetEmployeesResponse" where
  "samplePage = \<lparr>employees = [sampleEmployee], totalCount = 1\<rparr>"

definition workingClient :: "(string, unit) restClient" where
  "workingClient = answering (Inr samplePage) (Inr ())"

definition failingClient :: "(string, unit) restClient" where
  "failingClient = answering (Inl ''Network Error'') (Inl ''Network Error'')"

text \<open>A state whose cache holds one employee list, fetched at time 1000.\<close>

definition cachedWorld :: "string list world" where
  "cachedWorld =
     \<lparr>cache = (\<lambda>key. if key = (Num 0, sampleOptions)
                       then Some \<lparr>entryData = samplePage, dataUpdatedAt = 1000,
                                   isInvalidated = False\<rparr>
                       else None),
      network = [],
      ui = []\<rparr>"

section \<open>Numbers and slices: basic facts\<close>

lemma js_slice_Num:
  assumes "0 \<le> s" "0 \<le> e"
  shows "js_slice (Num s) (Num e) xs = take (nat (e - s)) (drop (nat s) xs)"
proof (cases "s < int (length xs)")
  case True
  then show ?thesis using assms
    by (auto simp: js_slice_def relativeIndex_def Let_def min_def)
next
  case False
  then show ?thesis using assms
    by (auto simp: js_slice_def relativeIndex_def Let_def min_def)
qed

lemma js_slice_Num_drop_take:
  assumes "0 \<le> s" "0 \<le> e"
  shows "js_slice (Num s) (Num e) xs = drop (nat s) (take (nat e) xs)"
proof -
  have "nat (e - s) = nat e - nat s" using assms by linarith
  then show ?thesis using js_slice_Num [OF assms, of xs] by (simp add: drop_take)
qed

lemma sliceStart_pos:
  assumes "0 < sps" "0 \<le> i" "0 \<le> n"
  shows "sliceStart sps i n = Num ((i * n) mod sps)"
  using assms by (simp add: sliceStart_def js_rem_def sgn_if)

lemma sliceEnd_pos:
  assumes "0 < sps" "0 \<le> i" "0 \<le> n"
  shows "sliceEnd sps i n =
     Num (if ((i + 1) * n) mod sps = 0 then sps else ((i + 1) * n) mod sps)"
  using assms by (simp add: sliceEnd_def js_rem_def js_or_def sgn_if)

lemma lastPage_pos:
  assumes "0 < n"
  shows "lastPage t n = Num (- ((- t) div n) - 1)"
  using assms by (simp add: lastPage_def js_ceil_div_def js_minus_def)

section \<open>A client page is a window of the whole list\<close>

lemma window_end:
  fixes sps i n :: int
  assumes "0 < sps" "0 \<le> i" "0 < n" "n dvd sps"
  shows "(if ((i + 1) * n) mod sps = 0 then sps else ((i + 1) * n) mod sps) = (i * n) mod sps + n"
    and "(i * n) mod sps + n \<le> sps"
proof -
  from \<open>n dvd sps\<close> obtain b where b: "sps = n * b" by (auto simp: dvd_def)
  with assms have bpos: "0 < b" using zero_less_mult_pos by blast
  have r: "(i * n) mod sps = n * (i mod b)"
    by (simp add: b mult.commute [of i n])
  have e: "((i + 1) * n) mod sps = n * ((i + 1) mod b)"
    by (simp add: b mult.commute [of "i + 1" n])
  have lt: "i mod b < b" and ge: "0 \<le> i mod b"
    using bpos by simp_all
  have rn: "n * (i mod b) + n = n * (i mod b + 1)" by (simp add: algebra_simps)
  show "(i * n) mod sps + n \<le> sps"
  proof -
    have "n * (i mod b + 1) \<le> n * b" using lt assms(3) by (intro mult_left_mono) simp_all
    moreover have "(i * n) mod sps + n = n * (i mod b + 1)" by (simp only: r rn)
    ultimately show ?thesis by (simp only: b)
  qed
  show "(if ((i + 1) * n) mod sps = 0 then sps else ((i + 1) * n) mod sps) = (i * n) mod sps + n"
  proof (cases "i mod b + 1 = b")
    case True
    have "(i + 1) mod b = (i mod b + 1) mod b" by (simp add: mod_add_left_eq)
    then have z: "(i + 1) mod b = 0" by (simp add: True)
    have "(i * n) mod sps + n = n * b" by (simp only: r rn True)
    moreover have "((i + 1) * n) mod sps = 0" by (simp only: e z mult_zero_right)
    ultimately show ?thesis using b by simp
  next
    case False
    with lt have "i mod b + 1 < b" by simp
    moreover have "(i + 1) mod b = (i mod b + 1) mod b" by (simp add: mod_add_left_eq)
    ultimately have s: "(i + 1) mod b = i mod b + 1" using ge by simp
    have "n * (i mod b + 1) \<noteq> 0" using assms(3) ge by simp
    moreover have "((i + 1) * n) mod sps = n * (i mod b + 1)" by (simp only: e s)
    moreover have "(i * n) mod sps + n = n * (i mod b + 1)" by (simp only: r rn)
    ultimately show ?thesis by simp
  qed
qed

lemma take_drop_page:
  assumes "r + n \<le> s"
  shows "take n (drop r (take s (drop q xs))) = take n (drop (q + r) xs)"
proof -
  have "drop r (take s (drop q xs)) = take (s - r) (drop (r + q) xs)"
    by (simp only: drop_take drop_drop)
  then show ?thesis using assms by (simp add: min_def add.commute)
qed

lemma dataPaginated_window:
  assumes "0 < sps" "0 \<le> i" "0 < n" "n dvd sps"
  shows "dataPaginated sps i n (serverPage sps all (pageOnServer sps i n)) =
     Some \<lparr>employees = take (nat n) (drop (nat (i * n)) all), totalCount = int (length all)\<rparr>"
proof -
  let ?m = "i * n"
  let ?q = "?m div sps" and ?r = "?m mod sps"
  have m: "0 \<le> ?m" using assms by simp
  have q: "0 \<le> ?q" using m assms(1) by (simp add: pos_imp_zdiv_nonneg_iff)
  have r: "0 \<le> ?r" using assms(1) by simp
  have n: "0 \<le> n" using assms(3) by simp
  have page: "pageOnServer sps i n = Num ?q"
    using assms(1) by (simp add: pageOnServer_def js_floor_div_def)
  have srv: "serverPage sps all (Num ?q) =
     Some \<lparr>employees = take (nat sps) (drop (nat (?q * sps)) all), totalCount = int (length all)\<rparr>"
    using q by (simp add: serverPage_def)
  have st: "sliceStart sps i n = Num ?r"
    using assms(1,2) n by (rule sliceStart_pos)
  have en: "sliceEnd sps i n = Num (?r + n)"
    using sliceEnd_pos [OF assms(1,2) n] window_end(1) [OF assms] by simp
  have le: "?r + n \<le> sps" using assms by (rule window_end(2))
  have sl: "js_slice (Num ?r) (Num (?r + n)) xs = take (nat n) (drop (nat ?r) xs)" for xs :: "'a list"
    using js_slice_Num [of ?r "?r + n" xs] r n by simp
  have "nat ?r + nat n \<le> nat sps" using le r n by linarith
  then have t: "take (nat n) (drop (nat ?r) (take (nat sps) (drop (nat (?q * sps)) all)))
      = take (nat n) (drop (nat (?q * sps) + nat ?r) all)"
    by (rule take_drop_page)
  have a: "nat (?q * sps) + nat ?r = nat ?m"
  proof -
    have "?q * sps + ?r = ?m" by simp
    moreover have "0 \<le> ?q * sps" using q assms(1) by simp
    ultimately show ?thesis using r by (metis nat_add_distrib)
  qed
  have "dataPaginated sps i n (serverPage sps all (pageOnServer sps i n)) =
     Some \<lparr>employees = take (nat n) (drop (nat ?r) (take (nat sps) (drop (nat (?q * sps)) all))),
       totalCount = int (length all)\<rparr>"
    unfolding page srv by (simp add: dataPaginated_def employeesSlice_def st en sl)
  also note t
  also note a
  finally show ?thesis .
qed

text \<open>
  C1. When the client page size divides the server page size (so it is at most that size),
  then for every client page index from 0 on, the server page that \<open>useEmployees\<close> asks
  for, sliced from \<open>start\<close> to \<open>end\<close>, holds exactly the rows of the whole list from
  position \<open>pageOnClient * pageSizeOnClient\<close> on, \<open>pageSizeOnClient\<close> of them (fewer
  where the list ends).
\<close>

theorem clientPage_window:
  assumes "0 < sps" "0 \<le> pageOnClient" "0 < pageSizeOnClient" "pageSizeOnClient dvd sps"
  shows "dataPaginated sps pageOnClient pageSizeOnClient
           (serverPage sps all (pageOnServer sps pageOnClient pageSizeOnClient)) =
         Some \<lparr>employees = take (nat pageSizeOnClient)
                               (drop (nat (pageOnClient * pageSizeOnClient)) all),
               totalCount = int (length all)\<rparr>"
  using assms by (rule dataPaginated_window)

theorem clientPage_window_witness:
  "(0::int) < 25 \<and> (5::int) dvd 25
   \<and> dataPaginated 25 3 5 (serverPage 25 [0..<40::nat] (pageOnServer 25 3 5)) =
       Some \<lparr>employees = [15, 16, 17, 18, 19], totalCount = 40\<rparr>"
  using clientPage_window [of 25 3 5 "[0..<40::nat]"]
  by (simp add: upt_rec)

lemma clientPage_eq:
  assumes "0 < sps" "0 \<le> i" "0 < n" "n dvd sps"
  shows "clientPage sps all i n = take (nat n) (drop (nat (i * n)) all)"
  by (simp add: clientPage_def dataPaginated_window [OF assms])

lemma concat_windows:
  "concat (map (\<lambda>i. take n (drop (nat i * n) xs)) [0..int k - 1]) = take (k * n) xs"
proof (induction k)
  case 0
  then show ?case by simp
next
  case (Suc k)
  have u: "[0..int k] = [0..int k - 1] @ [int k]"
    using upto_rec2 [of 0 "int k"] by simp
  have "take (Suc k * n) xs = take (k * n + n) xs" by (simp add: add.commute)
  also have "\<dots> = take (k * n) xs @ take n (drop (k * n) xs)" by (rule take_add)
  finally show ?case using Suc by (simp add: u)
qed

lemma ceil_covers:
  fixes t n :: int
  assumes "0 < n"
  shows "t \<le> (- ((- t) div n)) * n"
proof -
  have "(- t) div n * n + (- t) mod n = - t" by simp
  moreover have "0 \<le> (- t) mod n" using assms by simp
  ultimately have "(- t) div n * n \<le> - t" by linarith
  then show ?thesis by simp
qed

lemma ceil_nonneg:
  fixes t n :: int
  assumes "0 < n" "0 \<le> t"
  shows "0 \<le> - ((- t) div n)"
proof (cases "t = 0")
  case True
  then show ?thesis by simp
next
  case False
  with assms(2) have "- t < 0" by simp
  then have "(- t) div n < 0" using assms(1) by (simp add: pos_imp_zdiv_neg_iff)
  then show ?thesis by simp
qed

text \<open>
  C2, as the code has it. For a server page size of 25 and a client page size of 10 the
  client pages do not make up the list: client page 2 is sliced from 20 to 5 and is empty,
  so the rows 20 to 29 are shown on no page.
\<close>

theorem allClientPages_25_10_gap:
  "allClientPages 25 [0..<30::nat] 10 \<noteq> [0..<30]"
  by code_simp

text \<open>
  C2, amended. Whenever the client page size divides the server page size (5 and 25, say),
  the client pages 0 to the last one, one after the other, are the whole list: no row is
  missing and none comes twice.
\<close>

theorem allClientPages_divisor:
  assumes "0 < sps" "0 < pageSizeOnClient" "pageSizeOnClient dvd sps"
  shows "allClientPages sps all pageSizeOnClient = all"
proof -
  let ?n = pageSizeOnClient
  let ?c = "- ((- int (length all)) div ?n)"
  have c0: "0 \<le> ?c"
    using assms(2) by (intro ceil_nonneg) simp_all
  have cov: "int (length all) \<le> ?c * ?n" using assms(2) by (rule ceil_covers)
  have "allClientPages sps all ?n = concat (map (\<lambda>i. clientPage sps all i ?n) [0..?c - 1])"
    by (simp add: allClientPages_def lastPage_pos [OF assms(2)])
  also have "\<dots> = concat (map (\<lambda>i. take (nat ?n) (drop (nat i * nat ?n) all)) [0..?c - 1])"
  proof -
    have m: "map (\<lambda>i. clientPage sps all i ?n) [0..?c - 1] =
          map (\<lambda>i. take (nat ?n) (drop (nat i * nat ?n) all)) [0..?c - 1]"
    proof (rule map_cong [OF refl])
      fix i
      assume "i \<in> set [0..?c - 1]"
      then have i: "0 \<le> i" by simp
      then have "nat (i * ?n) = nat i * nat ?n" by (simp add: nat_mult_distrib)
      then show "clientPage sps all i ?n = take (nat ?n) (drop (nat i * nat ?n) all)"
        using clientPage_eq [OF assms(1) i assms(2,3), of all] by simp
    qed
    show ?thesis by (simp only: m)
  qed
  also have "\<dots> = take (nat ?c * nat ?n) all"
    using concat_windows [of "nat ?n" all "nat ?c"] c0 by simp
  also have "\<dots> = all"
  proof -
    have "nat ?c * nat ?n = nat (?c * ?n)" by (rule nat_mult_distrib [OF c0, symmetric])
    then have "length all \<le> nat ?c * nat ?n" using cov by linarith
    then show ?thesis by simp
  qed
  finally show ?thesis .
qed

theorem allClientPages_divisor_witness:
  "(0::int) < 25 \<and> (5::int) dvd 25 \<and> allClientPages 25 [0..<57::nat] 5 = [0..<57]"
  using allClientPages_divisor [of 25 5 "[0..<57::nat]"] by simp

section \<open>The server page index and the bounds of the slice\<close>

text \<open>
  C3. For a client page index and a client page size that are not negative, the server
  page fetched is the floor of \<open>pageOnClient * pageSizeOnClient / SERVER_PAGE_SIZE\<close>, for
  the page shown and for a page fetched ahead alike; when the client page size is the
  server page size, it is the client page index itself.
\<close>

theorem pageOnServer_floor:
  assumes "0 < sps" "0 \<le> pageOnClient" "0 \<le> pageSizeOnClient"
  shows "pageOnServer sps pageOnClient pageSizeOnClient =
           Num \<lfloor>real_of_int (pageOnClient * pageSizeOnClient) / real_of_int sps\<rfloor>
       \<and> pageOnServerToFetch sps pageOnClient pageSizeOnClient =
           Num \<lfloor>real_of_int (pageOnClient * pageSizeOnClient) / real_of_int sps\<rfloor>
       \<and> pageOnServer sps pageOnClient sps = Num pageOnClient"
  using assms
  by (simp add: pageOnServer_def pageOnServerToFetch_def js_floor_div_def floor_divide_of_int_eq
      del: of_int_mult)

theorem pageOnServer_floor_witness:
  "pageOnServer 25 7 10 = Num 2 \<and> pageOnServerToFetch 25 7 10 = Num 2 \<and> pageOnServer 25 7 25 = Num 7"
  using pageOnServer_floor [of 25 7 10] by simp

text \<open>
  C4, as the code has it. The slice can be empty although the \<open>end\<close> modulo is 0: for
  a server page size of 25, client page 0 of size 25 and a server page without rows (an
  empty employee list), \<open>start\<close> is 0, the \<open>end\<close> modulo is 0, \<open>end\<close> is 25, and
  the slice of the empty page is empty.
\<close>

theorem employeesSlice_empty_page:
  "((0 + 1) * 25) mod (25::int) = 0
   \<and> sliceStart 25 0 25 = Num 0
   \<and> sliceEnd 25 0 25 = Num 25
   \<and> employeesSlice 25 0 25 (Some \<lparr>employees = ([]::nat list), totalCount = 0\<rparr>) = Some []"
  by (simp add: sliceStart_def sliceEnd_def js_rem_def js_or_def employeesSlice_def
      js_slice_def relativeIndex_def)

text \<open>
  C4, amended. The slice of a server page is \<open>records[start:end]\<close> with
  \<open>start = (pageOnClient * pageSizeOnClient) mod SERVER_PAGE_SIZE\<close> and
  \<open>end = ((pageOnClient + 1) * pageSizeOnClient) mod SERVER_PAGE_SIZE\<close>, where an
  \<open>end\<close> of 0 is replaced by \<open>SERVER_PAGE_SIZE\<close>. In that case the slice runs to the
  end of the server page; it is empty exactly when the page holds no row at \<open>start\<close>. A
  page that holds no more than \<open>end\<close> rows is sliced to its own length.
\<close>

theorem employeesSlice_bounds:
  assumes "0 < sps" "0 \<le> pageOnClient" "0 \<le> pageSizeOnClient"
  shows "(let s = (pageOnClient * pageSizeOnClient) mod sps;
              m = ((pageOnClient + 1) * pageSizeOnClient) mod sps;
              e = (if m = 0 then sps else m);
              records = employees d;
              slice = drop (nat s) (take (nat e) records)
          in sliceStart sps pageOnClient pageSizeOnClient = Num s
           \<and> sliceEnd sps pageOnClient pageSizeOnClient = Num e
           \<and> employeesSlice sps pageOnClient pageSizeOnClient (Some d) = Some slice
           \<and> (m = 0 \<longrightarrow> slice = drop (nat s) (take (nat sps) records))
           \<and> (m = 0 \<longrightarrow> (slice \<noteq> [] \<longleftrightarrow> nat s < length records))
           \<and> (int (length records) \<le> e \<longrightarrow> slice = drop (nat s) records))"
proof -
  let ?s = "(pageOnClient * pageSizeOnClient) mod sps"
  let ?m = "((pageOnClient + 1) * pageSizeOnClient) mod sps"
  let ?e = "if ?m = 0 then sps else ?m"
  have s: "0 \<le> ?s" "?s < sps" using assms(1) by simp_all
  have e: "0 \<le> ?e" using assms(1) by simp
  have st: "sliceStart sps pageOnClient pageSizeOnClient = Num ?s"
    using assms by (rule sliceStart_pos)
  have en: "sliceEnd sps pageOnClient pageSizeOnClient = Num ?e"
    using assms by (rule sliceEnd_pos)
  have sl: "employeesSlice sps pageOnClient pageSizeOnClient (Some d) =
      Some (drop (nat ?s) (take (nat ?e) (employees d)))"
    unfolding employeesSlice_def st en
    by (simp only: option.map js_slice_Num_drop_take [OF s(1) e])
  have ne: "drop (nat ?s) (take (nat sps) (employees d)) \<noteq> [] \<longleftrightarrow>
      nat ?s < length (employees d)"
    using s by auto
  show ?thesis
    unfolding Let_def using st en sl ne by auto
qed

theorem employeesSlice_bounds_witness:
  "sliceStart 25 4 5 = Num 20 \<and> sliceEnd 25 4 5 = Num 25
   \<and> employeesSlice 25 4 5 (Some \<lparr>employees = [0..<23::nat], totalCount = 23\<rparr>) = Some [20, 21, 22]
   \<and> employeesSlice 25 4 5 (Some \<lparr>employees = [0..<20::nat], totalCount = 20\<rparr>) = Some []"
  using employeesSlice_bounds [of 25 4 5 "\<lparr>employees = [0..<23::nat], totalCount = 23\<rparr>"]
    employeesSlice_bounds [of 25 4 5 "\<lparr>employees = [0..<20::nat], totalCount = 20\<rparr>"]
  by (simp add: Let_def upt_rec)

section \<open>The pages fetched ahead\<close>

lemma forUp_filter:
  "forUp c l i acc = acc @ filter (\<lambda>j. j \<noteq> c \<and> j \<le> l) [i..4]"
proof (induction c l i acc rule: forUp.induct)
  case (1 c l i acc)
  show ?case
  proof (cases "i \<le> 4")
    case True
    then have u: "[i..4] = i # [i + 1..4]" by (simp add: upto_rec1)
    show ?thesis using True "1" by (subst forUp.simps) (simp add: u)
  next
    case False
    then show ?thesis by (subst forUp.simps) simp
  qed
qed

lemma forDown_filter:
  "forDown c l i acc = acc @ filter (\<lambda>j. j \<noteq> c \<and> 0 \<le> j) (rev [l - 4..i])"
proof (induction c l i acc rule: forDown.induct)
  case (1 c l i acc)
  show ?case
  proof (cases "l - 4 \<le> i")
    case True
    then have u: "[l - 4..i] = [l - 4..i - 1] @ [i]" by (simp add: upto_rec2)
    show ?thesis using True "1" by (subst forDown.simps) (simp add: u)
  next
    case False
    then show ?thesis by (subst forDown.simps) simp
  qed
qed

lemma pagesToPrefetch_start:
  assumes "c \<le> 3"
  shows "pagesToPrefetch c l =
     filter (\<lambda>j. j \<noteq> c \<and> j \<le> l) [0..4] @ (if 4 < l then [l] else [])"
  using assms by (simp add: pagesToPrefetch_def forUp_filter)

lemma pagesToPrefetch_end:
  assumes "3 < c" "l - 3 \<le> c"
  shows "pagesToPrefetch c l =
     filter (\<lambda>j. j \<noteq> c \<and> 0 \<le> j) (rev [l - 4..l]) @ (if 4 < l then [0] else [])"
  using assms by (simp add: pagesToPrefetch_def forDown_filter)

lemma pagesToPrefetch_middle:
  assumes "3 < c" "c < l - 3"
  shows "pagesToPrefetch c l = [c - 1, c + 1, 0, l]"
  using assms by (simp add: pagesToPrefetch_def)

text \<open>
  C6. For a current page of at most 3 and any last page, the pages fetched ahead are the
  pages 0 to 4 without the current page and without any page beyond the last one, and the
  last page itself when it is beyond 4; for a last page of 10 and a current page of 1
  these are 0, 2, 3, 4 and 10.
\<close>

theorem prefetch_near_start:
  assumes "currentPage \<le> 3"
  shows "pagesToPrefetch currentPage lastPg =
           filter (\<lambda>i. i \<noteq> currentPage \<and> i \<le> lastPg) [0..4]
             @ (if lastPg > 4 then [lastPg] else [])
       \<and> set (pagesToPrefetch currentPage lastPg) =
           {i. 0 \<le> i \<and> i \<le> 4 \<and> i \<noteq> currentPage \<and> i \<le> lastPg}
             \<union> (if lastPg > 4 then {lastPg} else {})
       \<and> pagesToPrefetch 1 10 = [0, 2, 3, 4, 10]"
proof -
  have "pagesToPrefetch 1 10 = [0, 2, 3, 4, 10]"
    by (simp add: pagesToPrefetch_start upto_rec1)
  then show ?thesis using assms by (auto simp: pagesToPrefetch_start)
qed

theorem prefetch_near_start_witness:
  "pagesToPrefetch 1 10 = [0, 2, 3, 4, 10] \<and> set (pagesToPrefetch 1 10) = {0, 2, 3, 4, 10}
   \<and> pagesToPrefetch 2 3 = [0, 1, 3]"
  using prefetch_near_start [of 1 10] prefetch_near_start [of 2 3]
  by (simp add: upto_rec1)

text \<open>
  C7. For a current page strictly between 3 and the last page minus 3, the pages fetched
  ahead are the one before, the one after, page 0 and the last page; for a current page of
  5 and a last page of 10 these are 4, 6, 0 and 10.
\<close>

theorem prefetch_middle:
  assumes "3 < currentPage" "currentPage < lastPg - 3"
  shows "pagesToPrefetch currentPage lastPg = [currentPage - 1, currentPage + 1, 0, lastPg]
       \<and> set (pagesToPrefetch currentPage lastPg) =
           {currentPage - 1, currentPage + 1, 0, lastPg}"
  using assms by (simp add: pagesToPrefetch_middle)

theorem prefetch_middle_witness:
  "pagesToPrefetch 5 10 = [4, 6, 0, 10] \<and> set (pagesToPrefetch 5 10) = {4, 6, 0, 10}"
  using prefetch_middle [of 5 10] by simp

lemma prefetch_props:
  "c \<notin> set (pagesToPrefetch c l) \<and> distinct (pagesToPrefetch c l)
   \<and> set (pagesToPrefetch c l) \<subseteq> {0..l}"
proof -
  consider "c \<le> 3" | "3 < c" "l - 3 \<le> c" | "3 < c" "c < l - 3" by linarith
  then show ?thesis
  proof cases
    case 1
    then show ?thesis by (auto simp: pagesToPrefetch_start)
  next
    case 2
    then show ?thesis by (auto simp: pagesToPrefetch_end)
  next
    case 3
    then show ?thesis by (auto simp: pagesToPrefetch_middle)
  qed
qed

lemma prefetch_empty:
  assumes "l < 0"
  shows "pagesToPrefetch c l = []"
proof (cases "c \<le> 3")
  case True
  then show ?thesis using assms by (simp add: pagesToPrefetch_start filter_empty_conv)
next
  case False
  then show ?thesis using assms by (simp add: pagesToPrefetch_end filter_empty_conv)
qed

text \<open>
  C10. For a current page between 0 and the last page, the list of pages fetched ahead
  never holds the current page, holds no page twice, and holds only pages between 0 and the
  last page. When the last page is negative the list is empty; that is the case of an
  empty employee list, where \<open>lastPage\<close> is -1 and nothing is fetched ahead.
\<close>

theorem prefetch_invariant:
  "(0 \<le> currentPage \<and> currentPage \<le> lastPg \<longrightarrow>
      currentPage \<notin> set (pagesToPrefetch currentPage lastPg)
      \<and> distinct (pagesToPrefetch currentPage lastPg)
      \<and> (\<forall>p \<in> set (pagesToPrefetch currentPage lastPg). 0 \<le> p \<and> p \<le> lastPg))
   \<and> (lastPg < 0 \<longrightarrow> pagesToPrefetch currentPage lastPg = [])
   \<and> (0 < pageSize \<longrightarrow>
        lastPage 0 pageSize = Num (- 1)
        \<and> usePrefetchEmployees sps endpoint client now currentPage pageSize 0 queryOptions w
            = Some w)"
proof -
  have a: "currentPage \<notin> set (pagesToPrefetch currentPage lastPg)
      \<and> distinct (pagesToPrefetch currentPage lastPg)
      \<and> (\<forall>p \<in> set (pagesToPrefetch currentPage lastPg). 0 \<le> p \<and> p \<le> lastPg)"
    using prefetch_props [of currentPage lastPg] by auto
  have b: "lastPg < 0 \<longrightarrow> pagesToPrefetch currentPage lastPg = []"
    by (simp add: prefetch_empty)
  have c: "0 < pageSize \<longrightarrow>
        lastPage 0 pageSize = Num (- 1)
        \<and> usePrefetchEmployees sps endpoint client now currentPage pageSize 0 queryOptions w
            = Some w"
    by (simp add: usePrefetchEmployees_def lastPage_pos prefetch_empty)
  from a b c show ?thesis by blast
qed

theorem prefetch_invariant_witness:
  "pagesToPrefetch 8 10 = [10, 9, 7, 6, 0]
   \<and> 8 \<notin> set (pagesToPrefetch 8 10) \<and> distinct (pagesToPrefetch 8 10)
   \<and> set (pagesToPrefetch 8 10) \<subseteq> {0..10}
   \<and> pagesToPrefetch 0 (- 1) = []
   \<and> usePrefetchEmployees 25 ''/employees'' failingClient 0 0 10 0
        sampleOptions (freshWorld ()) = Some (freshWorld ())"
proof -
  note t = prefetch_invariant [of 8 10 10 25 "''/employees''" failingClient 0
      sampleOptions "freshWorld ()"]
  note u = prefetch_invariant [of 0 "- 1" 10 25 "''/employees''" failingClient 0
      sampleOptions "freshWorld ()"]
  have 1: "pagesToPrefetch 8 10 = [10, 9, 7, 6, 0]"
    by (simp add: pagesToPrefetch_end upto_rec1)
  have 2: "8 \<notin> set (pagesToPrefetch 8 10) \<and> distinct (pagesToPrefetch 8 10)
      \<and> set (pagesToPrefetch 8 10) \<subseteq> {0..10}"
    using t by auto
  have 3: "pagesToPrefetch 0 (- 1) = []" using u by simp
  have 4: "usePrefetchEmployees 25 ''/employees'' failingClient 0 0 10 0
        sampleOptions (freshWorld ()) = Some (freshWorld ())"
    using u by simp
  from 1 2 3 4 show ?thesis by blast
qed

section \<open>The filter string and the request path\<close>

lemma js_split_not_Nil: "js_split c s \<noteq> []"
  by (induction s) (auto split: list.splits)

lemma js_join_Cons_Cons: "js_join sep ((c # p) # ps) = c # js_join sep (p # ps)"
  by (cases ps) auto

lemma js_join_Nil_Cons: "ps \<noteq> [] \<Longrightarrow> js_join sep ([] # ps) = sep @ js_join sep ps"
  by (cases ps) auto

lemma split_join_escape: "js_join ''-'' (js_split (CHR ''/'') s) = escapeSlash s"
proof (induction s)
  case Nil
  then show ?case by (simp add: escapeSlash_def)
next
  case (Cons c s)
  obtain p ps where sp: "js_split (CHR ''/'') s = p # ps"
    using js_split_not_Nil [of "CHR ''/''" s] by (cases "js_split (CHR ''/'') s") auto
  show ?case
  proof (cases "c = CHR ''/''")
    case True
    then show ?thesis using Cons js_split_not_Nil [of "CHR ''/''" s]
      by (simp add: js_join_Nil_Cons escapeSlash_def)
  next
    case False
    then show ?thesis using Cons sp
      by (simp add: js_join_Cons_Cons escapeSlash_def)
  qed
qed

lemma filtersOf_escape:
  "filtersOf q = map_option (\<lambda>values. escapeSlash (js_join ''_'' values))
                   (quickFilterValues (filterModel q))"
  by (simp add: filtersOf_def split_join_escape)

lemma escapeSlash_no_slash: "CHR ''/'' \<notin> set (escapeSlash s)"
  by (auto simp: escapeSlash_def)

lemma escapeSlash_Nil_iff: "escapeSlash s = [] \<longleftrightarrow> s = []"
  by (simp add: escapeSlash_def)

lemma useEmployees_network:
  assumes "cache w (pageOnServer sps i n, q) = None"
  shows "network (snd (useEmployees sps endpoint client now i n True q w)) =
     network w @ [Get (employeesPath endpoint (pageOnServer sps i n) (sortingFieldOf q)
                         (sortingOrderOf q) (filtersOf q))]"
  using assms
  by (simp add: useEmployees_def fetchQuery_def runQuery_def fetchEmployees_def Let_def
      split: sum.splits prod.splits)

text \<open>
  C5. The filter string is the filter values joined by \<open>_\<close> with every \<open>/\<close>
  replaced by \<open>-\<close>, and it is the last part of the path that is requested; without
  filter values (none given, or an empty list of them) that part is \<open>noFilter\<close>. No
  \<open>/\<close> is left in it.
\<close>

theorem filter_string:
  "filtersOf queryOptions =
       map_option (\<lambda>values. escapeSlash (js_join ''_'' values))
         (quickFilterValues (filterModel queryOptions))
   \<and> employeesPath endpoint page sortingField sortingOrder (filtersOf queryOptions) =
       endpoint @ ''/page/'' @ showNum page @ ''/sort/'' @ showField sortingField @ ''/''
         @ showSort sortingOrder @ ''/filters/''
         @ (case quickFilterValues (filterModel queryOptions) of
              None \<Rightarrow> ''noFilter''
            | Some values \<Rightarrow>
                (if js_join ''_'' values = [] then ''noFilter''
                 else escapeSlash (js_join ''_'' values)))
   \<and> (quickFilterValues (filterModel queryOptions) = None
        \<or> quickFilterValues (filterModel queryOptions) = Some []
      \<longrightarrow> filtersOrNoFilter (filtersOf queryOptions) = ''noFilter'')
   \<and> CHR ''/'' \<notin> set (filtersOrNoFilter (filtersOf queryOptions))
   \<and> (cache w (pageOnServer sps pageOnClient pageSizeOnClient, queryOptions) = None \<longrightarrow>
        network (snd (useEmployees sps endpoint client now pageOnClient pageSizeOnClient True
                        queryOptions w)) =
        network w @ [Get (employeesPath endpoint (pageOnServer sps pageOnClient pageSizeOnClient)
                            (sortingFieldOf queryOptions) (sortingOrderOf queryOptions)
                            (filtersOf queryOptions))])"
proof -
  have a: "filtersOrNoFilter (filtersOf queryOptions) =
      (case quickFilterValues (filterModel queryOptions) of
         None \<Rightarrow> ''noFilter''
       | Some values \<Rightarrow>
           (if js_join ''_'' values = [] then ''noFilter''
            else escapeSlash (js_join ''_'' values)))"
    by (simp add: filtersOf_escape filtersOrNoFilter_def escapeSlash_Nil_iff split: option.splits)
  have b: "CHR ''/'' \<notin> set (filtersOrNoFilter (filtersOf queryOptions))"
    unfolding a using escapeSlash_no_slash by (simp split: option.splits)
  have c: "quickFilterValues (filterModel queryOptions) = None
        \<or> quickFilterValues (filterModel queryOptions) = Some []
      \<longrightarrow> filtersOrNoFilter (filtersOf queryOptions) = ''noFilter''"
    unfolding a by auto
  have p: "employeesPath endpoint page sortingField sortingOrder (filtersOf queryOptions) =
       endpoint @ ''/page/'' @ showNum page @ ''/sort/'' @ showField sortingField @ ''/''
         @ showSort sortingOrder @ ''/filters/''
         @ (case quickFilterValues (filterModel queryOptions) of
              None \<Rightarrow> ''noFilter''
            | Some values \<Rightarrow>
                (if js_join ''_'' values = [] then ''noFilter''
                 else escapeSlash (js_join ''_'' values)))"
    by (simp only: employeesPath_def a)
  have n: "cache w (pageOnServer sps pageOnClient pageSizeOnClient, queryOptions) = None \<longrightarrow>
        network (snd (useEmployees sps endpoint client now pageOnClient pageSizeOnClient True
                        queryOptions w)) =
        network w @ [Get (employeesPath endpoint (pageOnServer sps pageOnClient pageSizeOnClient)
                            (sortingFieldOf queryOptions) (sortingOrderOf queryOptions)
                            (filtersOf queryOptions))]"
    by (rule impI) (rule useEmployees_network)
  from filtersOf_escape p c b n show ?thesis by (intro conjI)
qed

lemma sample_path:
  "employeesPath ''/employees'' (Num k) (sortingFieldOf sampleOptions)
     (sortingOrderOf sampleOptions) (filtersOf sampleOptions) =
   ''/employees/page/'' @ showNum (Num k) @ ''/sort/lastName/asc/filters/a-b_c''"
  by (simp add: employeesPath_def sampleOptions_def sortingFieldOf_def sortingOrderOf_def
      showField_def showSort_def filtersOf_def filtersOrNoFilter_def)

theorem filter_string_witness:
  "filtersOf sampleOptions = Some ''a-b_c''
   \<and> employeesPath ''/employees'' (Num 3) (sortingFieldOf sampleOptions)
        (sortingOrderOf sampleOptions) (filtersOf sampleOptions) =
       ''/employees/page/3/sort/lastName/asc/filters/a-b_c''
   \<and> filtersOrNoFilter (filtersOf \<lparr>sortModel = [], filterModel = \<lparr>quickFilterValues = Some []\<rparr>\<rparr>)
       = ''noFilter''
   \<and> network (snd (useEmployees 25 ''/employees'' failingClient 0 7 10 True
                      sampleOptions (freshWorld ()))) =
       [Get ''/employees/page/2/sort/lastName/asc/filters/a-b_c'']"
proof -
  note t1 = filter_string [of sampleOptions "''/employees''" "Num 3" "sortingFieldOf sampleOptions"
      "sortingOrderOf sampleOptions" "freshWorld ()" 25 7 10 failingClient 0]
  note t2 = filter_string [of "\<lparr>sortModel = [], filterModel = \<lparr>quickFilterValues = Some []\<rparr>\<rparr>"
      "''/employees''" "Num 3" None Undefined "freshWorld ()" 25 7 10 failingClient 0]
  have 1: "filtersOf sampleOptions = Some ''a-b_c''"
    using t1 [THEN conjunct1] by (simp add: sampleOptions_def escapeSlash_def)
  have 2: "employeesPath ''/employees'' (Num 3) (sortingFieldOf sampleOptions)
        (sortingOrderOf sampleOptions) (filtersOf sampleOptions) =
       ''/employees/page/3/sort/lastName/asc/filters/a-b_c''"
    by (simp add: sample_path showNum_def showNat.simps digitChar_def)
  have 3: "filtersOrNoFilter (filtersOf \<lparr>sortModel = [], filterModel = \<lparr>quickFilterValues = Some []\<rparr>\<rparr>)
       = ''noFilter''"
    using t2 [THEN conjunct2, THEN conjunct2, THEN conjunct1] by simp
  have 4: "network (snd (useEmployees 25 ''/employees'' failingClient 0 7 10 True
                      sampleOptions (freshWorld ()))) =
       [Get ''/employees/page/2/sort/lastName/asc/filters/a-b_c'']"
    using t1 [THEN conjunct2, THEN conjunct2, THEN conjunct2, THEN conjunct2]
    by (simp add: freshWorld_def pageOnServer_def js_floor_div_def sample_path showNum_def
        showNat.simps digitChar_def)
  from 1 2 3 4 show ?thesis by (intro conjI)
qed

section \<open>The mutations\<close>

lemma mutate_create:
  "mutate (useCreateEmployee client s e) employee w =
     afterMutation (Post ''/employees'' employee) (client_post client ''/employees'' employee)
       s (\<lambda>data. data) e w"
  by (cases "client_post client ''/employees'' employee"; cases s; cases e)
     (simp_all add: mutate_def useCreateEmployee_def afterMutation_def invalidateQueries_def
       callIfGiven_def)

lemma mutate_delete:
  "mutate (useDeleteEmployee client s e) ident w =
     afterMutation (Delete (''/employees/'' @ ident)) (client_delete client (''/employees/'' @ ident))
       s (\<lambda>data. ident) e w"
  by (cases "client_delete client (''/employees/'' @ ident)"; cases s; cases e)
     (simp_all add: mutate_def useDeleteEmployee_def afterMutation_def invalidateQueries_def
       callIfGiven_def)

lemma mutate_update:
  "mutate (useUpdateEmployee client s e) employee w =
     afterMutation (Put (''/employees/'' @ employeeId employee) employee)
       (client_put client (''/employees/'' @ employeeId employee) employee)
       s (\<lambda>data. employee) e w"
  by (cases "client_put client (''/employees/'' @ employeeId employee) employee"; cases s; cases e)
     (simp_all add: mutate_def useUpdateEmployee_def afterMutation_def invalidateQueries_def
       callIfGiven_def)

lemma afterMutation_effects:
  "network (afterMutation req answer s a e w) = network w @ [req]
   \<and> (\<forall>err. answer = Inl err \<longrightarrow>
         cache (afterMutation req answer s a e w) = cache w
         \<and> ui (afterMutation req answer s a e w) =
             (case e of None \<Rightarrow> ui w | Some f \<Rightarrow> f err (ui w)))
   \<and> (\<forall>data. answer = Inr data \<longrightarrow>
         (\<forall>key. cache (afterMutation req answer s a e w) key =
                  map_option (\<lambda>entry. entry\<lparr>isInvalidated := True\<rparr>) (cache w key))
         \<and> (\<forall>key entry staleTime now.
               cache (afterMutation req answer s a e w) key = Some entry \<longrightarrow>
               isStale staleTime now entry))"
  by (cases answer) (auto simp: afterMutation_def isStale_def)

text \<open>
  C8. Each of the three mutations, create, delete and update, makes exactly one REST call
  per invocation, whatever the answer; on success it invalidates the cached employee lists,
  and on failure it runs the caller's error callback with the error and leaves the cache as
  it was.
\<close>

theorem mutations_once:
  "(let answer = client_post client ''/employees'' newEmployee;
        w1 = mutate (useCreateEmployee client onSuccessCreate onErrorCb) newEmployee w
    in w1 = afterMutation (Post ''/employees'' newEmployee) answer
              onSuccessCreate (\<lambda>data. data) onErrorCb w
     \<and> network w1 = network w @ [Post ''/employees'' newEmployee]
     \<and> (\<forall>err. answer = Inl err \<longrightarrow>
           cache w1 = cache w
           \<and> ui w1 = (case onErrorCb of None \<Rightarrow> ui w | Some f \<Rightarrow> f err (ui w)))
     \<and> (\<forall>data. answer = Inr data \<longrightarrow>
           (\<forall>key. cache w1 key =
                    map_option (\<lambda>entry. entry\<lparr>isInvalidated := True\<rparr>) (cache w key))
           \<and> (\<forall>key entry staleTime now.
                 cache w1 key = Some entry \<longrightarrow> isStale staleTime now entry)))
   \<and> (let answer = client_delete client (''/employees/'' @ ident);
          w1 = mutate (useDeleteEmployee client onSuccessDelete onErrorCb) ident w
      in w1 = afterMutation (Delete (''/employees/'' @ ident)) answer
                onSuccessDelete (\<lambda>data. ident) onErrorCb w
       \<and> network w1 = network w @ [Delete (''/employees/'' @ ident)]
       \<and> (\<forall>err. answer = Inl err \<longrightarrow>
             cache w1 = cache w
             \<and> ui w1 = (case onErrorCb of None \<Rightarrow> ui w | Some f \<Rightarrow> f err (ui w)))
       \<and> (\<forall>data. answer = Inr data \<longrightarrow>
             (\<forall>key. cache w1 key =
                      map_option (\<lambda>entry. entry\<lparr>isInvalidated := True\<rparr>) (cache w key))
             \<and> (\<forall>key entry staleTime now.
                   cache w1 key = Some entry \<longrightarrow> isStale staleTime now entry)))
   \<and> (let answer = client_put client (''/employees/'' @ employeeId employee) employee;
          w1 = mutate (useUpdateEmployee client onSuccessUpdate onErrorCb) employee w
      in w1 = afterMutation (Put (''/employees/'' @ employeeId employee) employee) answer
                onSuccessUpdate (\<lambda>data. employee) onErrorCb w
       \<and> network w1 = network w @ [Put (''/employees/'' @ employeeId employee) employee]
       \<and> (\<forall>err. answer = Inl err \<longrightarrow>
             cache w1 = cache w
             \<and> ui w1 = (case onErrorCb of None \<Rightarrow> ui w | Some f \<Rightarrow> f err (ui w)))
       \<and> (\<forall>data. answer = Inr data \<longrightarrow>
             (\<forall>key. cache w1 key =
                      map_option (\<lambda>entry. entry\<lparr>isInvalidated := True\<rparr>) (cache w key))
             \<and> (\<forall>key entry staleTime now.
                   cache w1 key = Some entry \<longrightarrow> isStale staleTime now entry)))"
  unfolding Let_def mutate_create mutate_delete mutate_update
  by (intro conjI refl;
      (rule afterMutation_effects [THEN conjunct1]
       | rule afterMutation_effects [THEN conjunct2, THEN conjunct1]
       | rule afterMutation_effects [THEN conjunct2, THEN conjunct2]))

theorem mutations_once_witness:
  "mutate (useDeleteEmployee failingClient None (Some (\<lambda>err log. log @ [err]))) ''7'' cachedWorld
     = cachedWorld\<lparr>network := [Delete ''/employees/7''], ui := [''Network Error'']\<rparr>
   \<and> mutate (useUpdateEmployee workingClient
               (Some (\<lambda>employee log. log @ [employeeId employee])) None) sampleEmployee cachedWorld
     = \<lparr>cache = (\<lambda>key. if key = (Num 0, sampleOptions)
                        then Some \<lparr>entryData = samplePage, dataUpdatedAt = 1000,
                                    isInvalidated = True\<rparr>
                        else None),
        network = [Put ''/employees/7'' sampleEmployee],
        ui = [''7'']\<rparr>"
proof -
  have 1: "mutate (useDeleteEmployee failingClient None (Some (\<lambda>err log. log @ [err]))) ''7''
             cachedWorld
     = cachedWorld\<lparr>network := [Delete ''/employees/7''], ui := [''Network Error'']\<rparr>"
    using mutations_once [of failingClient _ None "Some (\<lambda>err log. log @ [err])" cachedWorld
        "''7''" None sampleEmployee None, THEN conjunct2, THEN conjunct1]
    by (simp add: Let_def afterMutation_def failingClient_def answering_def cachedWorld_def)
  have 2: "mutate (useUpdateEmployee workingClient
               (Some (\<lambda>employee log. log @ [employeeId employee])) None) sampleEmployee cachedWorld
     = \<lparr>cache = (\<lambda>key. if key = (Num 0, sampleOptions)
                        then Some \<lparr>entryData = samplePage, dataUpdatedAt = 1000,
                                    isInvalidated = True\<rparr>
                        else None),
        network = [Put ''/employees/7'' sampleEmployee],
        ui = [''7'']\<rparr>"
    using mutations_once [of workingClient _ None None cachedWorld
        "''7''" None sampleEmployee "Some (\<lambda>employee log. log @ [employeeId employee])",
        THEN conjunct2, THEN conjunct2]
    by (auto simp add: Let_def afterMutation_def workingClient_def answering_def cachedWorld_def
        sampleEmployee_def fun_eq_iff)
  from 1 2 show ?thesis by (rule conjI)
qed

section \<open>The validity window of the cache\<close>

lemma fetch_first:
  assumes "cache w key = None"
    and "client_get client (employeesPath endpoint page f ord fl) = Inr d"
  shows "fetchQuery staleTime t key (fetchEmployees endpoint client page f ord fl) w =
     (Some d,
      w\<lparr>network := network w @ [Get (employeesPath endpoint page f ord fl)],
        cache := (cache w)(key \<mapsto> \<lparr>entryData = d, dataUpdatedAt = t, isInvalidated = False\<rparr>)\<rparr>)"
  using assms by (simp add: fetchQuery_def runQuery_def fetchEmployees_def)

lemma fetch_valid:
  assumes "cache w key = Some e" "\<not> isStale staleTime t e"
  shows "fetchQuery staleTime t key queryFn w = (Some (entryData e), w)"
  using assms by (simp add: fetchQuery_def)

lemma fetch_stale:
  assumes "cache w key = Some e" "isStale staleTime t e"
  shows "network (snd (fetchQuery staleTime t key (fetchEmployees endpoint client page f ord fl) w)) =
     network w @ [Get (employeesPath endpoint page f ord fl)]"
  using assms
  by (simp add: fetchQuery_def runQuery_def fetchEmployees_def Let_def split: sum.splits)

lemma useEmployees_first:
  assumes "cache w (pageOnServer sps i n, q) = None"
    and "client_get client (employeesPath endpoint (pageOnServer sps i n) (sortingFieldOf q)
           (sortingOrderOf q) (filtersOf q)) = Inr d"
  shows "useEmployees sps endpoint client t i n True q w =
     (dataPaginated sps i n (Some d),
      w\<lparr>network := network w @ [Get (employeesPath endpoint (pageOnServer sps i n)
                                        (sortingFieldOf q) (sortingOrderOf q) (filtersOf q))],
        cache := (cache w)((pageOnServer sps i n, q) \<mapsto>
                   \<lparr>entryData = d, dataUpdatedAt = t, isInvalidated = False\<rparr>)\<rparr>)"
  by (simp add: useEmployees_def Let_def fetch_first [OF assms])

lemma useEmployees_valid:
  assumes "cache w (pageOnServer sps i n, q) = Some e" "\<not> isStale 5000 t e"
  shows "useEmployees sps endpoint client t i n True q w =
     (dataPaginated sps i n (Some (entryData e)), w)"
  by (simp add: useEmployees_def Let_def fetch_valid [OF assms])

lemma useEmployees_stale:
  assumes "cache w (pageOnServer sps i n, q) = Some e" "isStale 5000 t e"
  shows "network (snd (useEmployees sps endpoint client t i n True q w)) =
     network w @ [Get (employeesPath endpoint (pageOnServer sps i n) (sortingFieldOf q)
                         (sortingOrderOf q) (filtersOf q))]"
  using fetch_stale [OF assms, of endpoint client "pageOnServer sps i n" "sortingFieldOf q"
      "sortingOrderOf q" "filtersOf q"]
  by (simp add: useEmployees_def Let_def case_prod_beta)

lemma prefetchPage_valid:
  assumes "cache w (pageOnServerToFetch sps p n, q) = Some e" "\<not> isStale 5000 t e"
  shows "prefetchPage sps endpoint client t n q p w = w"
  by (simp add: prefetchPage_def Let_def fetch_valid [OF assms])

lemma prefetchPage_stale:
  assumes "cache w (pageOnServerToFetch sps p n, q) = Some e" "isStale 5000 t e"
  shows "network (prefetchPage sps endpoint client t n q p w) =
     network w @ [Get (employeesPath endpoint (pageOnServerToFetch sps p n) (sortingFieldOf q)
                         (sortingOrderOf q) (filtersOf q))]"
  using fetch_stale [OF assms, of endpoint client "pageOnServerToFetch sps p n" "sortingFieldOf q"
      "sortingOrderOf q" "filtersOf q"]
  by (simp add: prefetchPage_def Let_def)

text \<open>
  C9. The result of a fetch is cached under the key of its request for 5 seconds: the same
  request 2 seconds after the first is answered from the cache, without a call over the
  network, and the same request 6 seconds after the first makes a new call; so for
  \<open>useEmployees\<close>, and so for a page fetched ahead that lies on the same server page.
\<close>

theorem cache_validity_window:
  assumes "cache w (pageOnServer sps pageOnClient pageSizeOnClient, queryOptions) = None"
    and "client_get client
           (employeesPath endpoint (pageOnServer sps pageOnClient pageSizeOnClient)
              (sortingFieldOf queryOptions) (sortingOrderOf queryOptions) (filtersOf queryOptions))
         = Inr d"
    and "pageOnServerToFetch sps page pageSizeOnClient = pageOnServer sps pageOnClient pageSizeOnClient"
  shows "(let path = employeesPath endpoint (pageOnServer sps pageOnClient pageSizeOnClient)
                       (sortingFieldOf queryOptions) (sortingOrderOf queryOptions)
                       (filtersOf queryOptions);
              w1 = snd (useEmployees sps endpoint client t pageOnClient pageSizeOnClient True
                          queryOptions w)
          in network w1 = network w @ [Get path]
           \<and> useEmployees sps endpoint client (t + 2000) pageOnClient pageSizeOnClient True
                queryOptions w1 = (dataPaginated sps pageOnClient pageSizeOnClient (Some d), w1)
           \<and> network (snd (useEmployees sps endpoint client (t + 6000) pageOnClient
                               pageSizeOnClient True queryOptions w1)) =
               network w @ [Get path, Get path]
           \<and> prefetchPage sps endpoint client (t + 2000) pageSizeOnClient queryOptions page w1 = w1
           \<and> network (prefetchPage sps endpoint client (t + 6000) pageSizeOnClient queryOptions
                         page w1) = network w @ [Get path, Get path]
           \<and> (\<forall>t'. t' < t + 5000 \<longrightarrow>
                  useEmployees sps endpoint client t' pageOnClient pageSizeOnClient True
                    queryOptions w1 = (dataPaginated sps pageOnClient pageSizeOnClient (Some d), w1))
           \<and> (\<forall>t'. t + 5000 \<le> t' \<longrightarrow>
                  network (snd (useEmployees sps endpoint client t' pageOnClient pageSizeOnClient
                                  True queryOptions w1)) = network w @ [Get path, Get path]))"
proof -
  let ?page = "pageOnServer sps pageOnClient pageSizeOnClient"
  let ?path = "employeesPath endpoint ?page (sortingFieldOf queryOptions)
                 (sortingOrderOf queryOptions) (filtersOf queryOptions)"
  let ?e = "\<lparr>entryData = d, dataUpdatedAt = t, isInvalidated = False\<rparr>"
  let ?w1 = "w\<lparr>network := network w @ [Get ?path],
               cache := (cache w)((?page, queryOptions) \<mapsto> ?e)\<rparr>"
  have first: "useEmployees sps endpoint client t pageOnClient pageSizeOnClient True queryOptions w
      = (dataPaginated sps pageOnClient pageSizeOnClient (Some d), ?w1)"
    using assms(1,2) by (rule useEmployees_first)
  have c: "cache ?w1 (?page, queryOptions) = Some ?e" by simp
  have c': "cache ?w1 (pageOnServerToFetch sps page pageSizeOnClient, queryOptions) = Some ?e"
    by (simp add: assms(3))
  have valid: "\<not> isStale 5000 t' ?e" if "t' < t + 5000" for t'
    using that by (simp add: isStale_def)
  have stale: "isStale 5000 t' ?e" if "t + 5000 \<le> t'" for t'
    using that by (simp add: isStale_def)
  have n1: "network ?w1 = network w @ [Get ?path]" by simp
  have v: "useEmployees sps endpoint client t' pageOnClient pageSizeOnClient True queryOptions ?w1
      = (dataPaginated sps pageOnClient pageSizeOnClient (Some d), ?w1)" if "t' < t + 5000" for t'
    using useEmployees_valid [OF c valid [OF that], of endpoint client] by simp
  have s: "network (snd (useEmployees sps endpoint client t' pageOnClient pageSizeOnClient True
                           queryOptions ?w1)) = network w @ [Get ?path, Get ?path]"
    if "t + 5000 \<le> t'" for t'
    using useEmployees_stale [OF c stale [OF that], of endpoint client] by simp
  have pv: "prefetchPage sps endpoint client (t + 2000) pageSizeOnClient queryOptions page ?w1 = ?w1"
    by (rule prefetchPage_valid [OF c' valid]) simp
  have ps: "network (prefetchPage sps endpoint client (t + 6000) pageSizeOnClient queryOptions
                       page ?w1) = network w @ [Get ?path, Get ?path]"
    using prefetchPage_stale [OF c' stale, of "t + 6000" endpoint client] by (simp add: assms(3))
  show ?thesis
    unfolding Let_def first snd_conv
    using n1 v [of "t + 2000"] s [of "t + 6000"] pv ps v s by (intro conjI allI impI) simp_all
qed

theorem cache_validity_window_witness:
  "network (snd (useEmployees 25 ''/employees'' workingClient 1000 0 10 True sampleOptions
                   (freshWorld ()))) =
     [Get ''/employees/page/0/sort/lastName/asc/filters/a-b_c'']
   \<and> network (snd (useEmployees 25 ''/employees'' workingClient 3000 0 10 True sampleOptions
        (snd (useEmployees 25 ''/employees'' workingClient 1000 0 10 True sampleOptions
                (freshWorld ()))))) =
     [Get ''/employees/page/0/sort/lastName/asc/filters/a-b_c'']
   \<and> network (snd (useEmployees 25 ''/employees'' workingClient 7000 0 10 True sampleOptions
        (snd (useEmployees 25 ''/employees'' workingClient 1000 0 10 True sampleOptions
                (freshWorld ()))))) =
     [Get ''/employees/page/0/sort/lastName/asc/filters/a-b_c'',
      Get ''/employees/page/0/sort/lastName/asc/filters/a-b_c'']"
proof -
  have p: "pageOnServer 25 0 10 = Num 0" "pageOnServerToFetch 25 1 10 = Num 0"
    by (simp_all add: pageOnServer_def pageOnServerToFetch_def js_floor_div_def)
  have path: "employeesPath ''/employees'' (Num 0) (sortingFieldOf sampleOptions)
     (sortingOrderOf sampleOptions) (filtersOf sampleOptions) =
     ''/employees/page/0/sort/lastName/asc/filters/a-b_c''"
    by (simp add: sample_path showNum_def showNat.simps digitChar_def)
  have h1: "cache (freshWorld ()) (pageOnServer 25 0 10, sampleOptions) = None"
    by (simp add: freshWorld_def)
  have h2: "client_get workingClient
      (employeesPath ''/employees'' (pageOnServer 25 0 10) (sortingFieldOf sampleOptions)
         (sortingOrderOf sampleOptions) (filtersOf sampleOptions)) = Inr samplePage"
    by (simp add: workingClient_def answering_def)
  have h3: "pageOnServerToFetch 25 1 10 = pageOnServer 25 0 10" by (simp add: p)
  note t = cache_validity_window [OF h1 h2 h3, of 1000]
  show ?thesis
    using t unfolding Let_def p path by (simp add: freshWorld_def)
qed

end
